theory Spec2Isabelle
  imports Main
begin

section \<open>JavaScript values\<close>

text \<open>
  The options bag of the constructor and the arguments of \<open>open\<close> are untyped
  JavaScript values. A number is kept as an integer when it is one; the other numbers
  (fractions, \<open>NaN\<close>, the infinities) only matter through
  \<open>Number.isSafeInteger\<close> and truthiness. An object is the list of its own
  enumerable properties in the order \<open>Object.keys\<close> lists them. A function value
  is named by a number, a symbol by its description.
\<close>

datatype jsnum = NInt int | NFrac | NaN | PosInf | NegInf

datatype event_kind = Ev_OPEN | Ev_DATA | Ev_ERROR | Ev_COMPLETE | Ev_ABORT

datatype jsval =
    JUndefined
  | JNull
  | JBool bool
  | JNum jsnum
  | JStr string
  | JSym string
  | JFun nat
  | JArr "jsval list"
  | JObj "(string \<times> jsval) list"

text \<open>
  Every \<open>throw new Error(...)\<close> of the constructor is one error value, in the order
  of the source; \<open>TypeError\<close> is the error the runtime itself raises when a property
  of \<open>null\<close> or \<open>undefined\<close> is read or enumerated, or when a symbol is
  converted to a string.
\<close>

datatype error =
    InvalidMethod
  | InvalidResponseType
  | InvalidHeaders
  | InvalidTimeout
  | InvalidListenersArray
  | InvalidListenerObject
  | UnknownEventType
  | InvalidCallback
  | TypeError

text \<open>
  \<open>throw new Error(`... ${v} ...`)\<close>: building the message converts \<open>v\<close> to a
  string, and for a symbol that conversion itself raises a \<open>TypeError\<close>, which is
  then what the statement throws.
\<close>

fun throw_Error :: "error \<Rightarrow> jsval \<Rightarrow> error" where
  "throw_Error e (JSym s) = TypeError"
| "throw_Error e v = e"

fun js_typeof :: "jsval \<Rightarrow> string" where
  "js_typeof JUndefined = ''undefined''"
| "js_typeof JNull = ''object''"
| "js_typeof (JBool b) = ''boolean''"
| "js_typeof (JNum n) = ''number''"
| "js_typeof (JStr s) = ''string''"
| "js_typeof (JSym s) = ''symbol''"
| "js_typeof (JFun f) = ''function''"
| "js_typeof (JArr xs) = ''object''"
| "js_typeof (JObj kvs) = ''object''"

fun truthy :: "jsval \<Rightarrow> bool" where
  "truthy JUndefined = False"
| "truthy JNull = False"
| "truthy (JBool b) = b"
| "truthy (JNum (NInt n)) = (n \<noteq> 0)"
| "truthy (JNum NaN) = False"
| "truthy (JNum n) = True"
| "truthy (JStr s) = (s \<noteq> [])"
| "truthy v = True"

text \<open>\<open>o.name\<close> on a value that is neither \<open>null\<close> nor \<open>undefined\<close>.\<close>

fun get_prop :: "jsval \<Rightarrow> string \<Rightarrow> jsval" where
  "get_prop (JObj kvs) name = (case map_of kvs name of None \<Rightarrow> JUndefined | Some v \<Rightarrow> v)"
| "get_prop v name = JUndefined"

text \<open>A destructuring default: it replaces \<open>undefined\<close> only.\<close>

definition dflt :: "jsval \<Rightarrow> jsval \<Rightarrow> jsval" where
  "dflt d v = (if v = JUndefined then d else v)"

fun Number_isSafeInteger :: "jsval \<Rightarrow> bool" where
  "Number_isSafeInteger (JNum (NInt n)) = (\<bar>n\<bar> \<le> 2 ^ 53 - 1)"
| "Number_isSafeInteger v = False"

text \<open>\<open>timeout < 0\<close>, which the source reads only once \<open>timeout\<close> is a safe integer.\<close>

fun js_negative :: "jsval \<Rightarrow> bool" where
  "js_negative (JNum (NInt n)) = (n < 0)"
| "js_negative v = False"

text \<open>An array index as the key \<open>Object.keys\<close> gives for it.\<close>

fun decimal :: "nat \<Rightarrow> string" where
  "decimal n =
     (if n < 10 then [char_of (48 + n)]
      else decimal (n div 10) @ [char_of (48 + n mod 10)])"

declare decimal.simps [simp del]

text \<open>
  \<open>Object.keys(o).forEach(key => ... o[key] ...)\<close>: the keys with their values, or
  \<open>None\<close> where \<open>Object.keys\<close> raises a \<open>TypeError\<close>. An array and a
  string have their indices as keys; a boolean, a number, a symbol and a function have
  none.
\<close>

fun Object_entries :: "jsval \<Rightarrow> (string \<times> jsval) list option" where
  "Object_entries JUndefined = None"
| "Object_entries JNull = None"
| "Object_entries (JObj kvs) = Some (map (\<lambda>k. (k, get_prop (JObj kvs) k)) (map fst kvs))"
| "Object_entries (JArr xs) = Some (zip (map decimal [0..<length xs]) xs)"
| "Object_entries (JStr s) = Some (zip (map decimal [0..<length s]) (map (\<lambda>c. JStr [c]) s))"
| "Object_entries v = Some []"

definition ALLOWED_METHODS :: "jsval list" where
  "ALLOWED_METHODS = [JStr ''GET'', JStr ''POST'', JStr ''PUT'', JStr ''DELETE'']"

definition ALLOWED_RESPONSE_TYPES :: "jsval list" where
  "ALLOWED_RESPONSE_TYPES =
     [JStr ''arraybuffer'', JStr ''blob'', JStr ''document'', JStr ''json'', JStr ''text'']"

text \<open>
  Modelled from the spec: \<open>ConnectionEvent\<close> is imported by the source and not part
  of it. It names the five kinds as constants and \<open>ConnectionEvent.includes\<close> is
  the membership test. The constants are taken to be strings, since the source prints a
  listener's \<open>type\<close> into its messages, with the names under which the source's
  message lists them.
\<close>

fun kind_name :: "event_kind \<Rightarrow> string" where
  "kind_name Ev_OPEN = ''OPEN''"
| "kind_name Ev_DATA = ''DATA''"
| "kind_name Ev_ERROR = ''ERROR''"
| "kind_name Ev_COMPLETE = ''COMPLETE''"
| "kind_name Ev_ABORT = ''ABORT''"

definition ConnectionEvent_kind :: "event_kind \<Rightarrow> jsval" where
  "ConnectionEvent_kind k = JStr (kind_name k)"

definition ConnectionEvent_includes :: "jsval \<Rightarrow> bool" where
  "ConnectionEvent_includes v \<longleftrightarrow>
     v \<in> set (map ConnectionEvent_kind [Ev_OPEN, Ev_DATA, Ev_ERROR, Ev_COMPLETE, Ev_ABORT])"

section \<open>The connection, its transport handle and the runtime\<close>

datatype conn_state = INIT | OPEN | CLOSED

datatype signal = SigProgress | SigLoad | SigAbort | SigError | SigTimeout

text \<open>
  The \<open>XMLHttpRequest\<close> object: the listeners the source has registered on it, in
  registration order, and the properties the source writes or reads.
\<close>

record xhr_handle =
  wired :: "signal list"
  x_timeout :: jsval
  x_responseType :: jsval
  x_response :: jsval
  x_status :: nat

text \<open>
  Modelled from the spec: \<open>AbstractConnection\<close> is imported by the source and not
  part of it. It holds the address, the lifecycle state, the two nullable timestamps and
  the listener registry, and a connection is created in state \<open>INIT\<close>.
\<close>

record abstract_connection =
  url :: jsval
  state :: conn_state
  opened :: "nat option"
  closed :: "nat option"
  listeners :: "(jsval \<times> jsval) list"

record connection = abstract_connection +
  request_method :: jsval
  body :: jsval
  headers :: jsval
  responseType :: jsval
  timeout :: jsval
  xhr :: xhr_handle

text \<open>
  Everything the code does to the outside, in program order: the calls on the transport
  handle, the assignments to \<open>state\<close>, \<open>opened\<close> and \<open>closed\<close>, the
  zero-delay timers it sets, and the emissions, each with the listeners it invokes and
  the \<open>state\<close>, \<open>opened\<close> and \<open>closed\<close> a listener reads at that moment.
\<close>

datatype effect =
    NewXHR
  | AddEventListener signal
  | XhrOpen jsval jsval
  | XhrSetTimeout jsval
  | SetRequestHeader string jsval
  | XhrSetResponseType jsval
  | XhrSend jsval
  | XhrAbort
  | SetState conn_state
  | SetOpened nat
  | SetClosed nat
  | SetTimeout event_kind
  | Emit event_kind "jsval list" conn_state "nat option" "nat option"

text \<open>
  The runtime: the clock \<open>Date.now()\<close> reads, the queue of pending zero-delay
  timers (each one emits the event of its kind when it runs), and the effects so far.
\<close>

record runtime =
  clock :: nat
  timers :: "event_kind list"
  trace :: "effect list"

record world =
  conn :: connection
  rt :: runtime

datatype jsret = RetUndefined | RetThis

section \<open>Primitive statements\<close>

text \<open>
  One definition for each kind of statement of \<open>open\<close>, \<open>close\<close> and the
  listeners. The transport handle belongs to the browser: a call on it is recorded in
  the trace, a property written to it is also kept, and what the transport does in
  return (its signals, its status) is a step of its own in the event loop below.
\<close>

definition log :: "effect \<Rightarrow> world \<Rightarrow> world" where
  "log e w = w\<lparr>rt := (rt w)\<lparr>trace := trace (rt w) @ [e]\<rparr>\<rparr>"

definition Date_now :: "world \<Rightarrow> nat" where
  "Date_now w = clock (rt w)"

definition set_state :: "conn_state \<Rightarrow> world \<Rightarrow> world" where
  "set_state s w = log (SetState s) (w\<lparr>conn := (conn w)\<lparr>state := s\<rparr>\<rparr>)"

definition set_opened :: "world \<Rightarrow> world" where
  "set_opened w = log (SetOpened (Date_now w)) (w\<lparr>conn := (conn w)\<lparr>opened := Some (Date_now w)\<rparr>\<rparr>)"

definition set_closed :: "world \<Rightarrow> world" where
  "set_closed w = log (SetClosed (Date_now w)) (w\<lparr>conn := (conn w)\<lparr>closed := Some (Date_now w)\<rparr>\<rparr>)"

text \<open>
  \<open>window.setTimeout(() => { this.emit(K, new ConnectionEvent(this, K)); }, 0)\<close>:
  the callback joins the queue.
\<close>

definition setTimeout :: "event_kind \<Rightarrow> world \<Rightarrow> world" where
  "setTimeout k w = log (SetTimeout k) (w\<lparr>rt := (rt w)\<lparr>timers := timers (rt w) @ [k]\<rparr>\<rparr>)"

definition addEventListener :: "signal \<Rightarrow> world \<Rightarrow> world" where
  "addEventListener s w =
     log (AddEventListener s)
       (w\<lparr>conn := (conn w)\<lparr>xhr := (xhr (conn w))\<lparr>wired := wired (xhr (conn w)) @ [s]\<rparr>\<rparr>\<rparr>)"

definition xhr_open :: "jsval \<Rightarrow> jsval \<Rightarrow> world \<Rightarrow> world" where
  "xhr_open m u w = log (XhrOpen m u) w"

definition xhr_set_timeout :: "jsval \<Rightarrow> world \<Rightarrow> world" where
  "xhr_set_timeout t w =
     log (XhrSetTimeout t) (w\<lparr>conn := (conn w)\<lparr>xhr := (xhr (conn w))\<lparr>x_timeout := t\<rparr>\<rparr>\<rparr>)"

definition setRequestHeader :: "string \<Rightarrow> jsval \<Rightarrow> world \<Rightarrow> world" where
  "setRequestHeader k v w = log (SetRequestHeader k v) w"

definition xhr_set_responseType :: "jsval \<Rightarrow> world \<Rightarrow> world" where
  "xhr_set_responseType t w =
     log (XhrSetResponseType t)
       (w\<lparr>conn := (conn w)\<lparr>xhr := (xhr (conn w))\<lparr>x_responseType := t\<rparr>\<rparr>\<rparr>)"

definition xhr_send :: "jsval \<Rightarrow> world \<Rightarrow> world" where
  "xhr_send b w = log (XhrSend b) w"

definition xhr_abort :: "world \<Rightarrow> world" where
  "xhr_abort w = log XhrAbort w"

text \<open>
  Modelled from the spec: \<open>emit\<close> belongs to \<open>AbstractConnection\<close>. It invokes
  every callback registered for the kind, in registration order.
\<close>

definition emit :: "event_kind \<Rightarrow> world \<Rightarrow> world" where
  "emit k w =
     log (Emit k (map snd (filter (\<lambda>l. fst l = ConnectionEvent_kind k) (listeners (conn w))))
            (state (conn w)) (opened (conn w)) (closed (conn w))) w"

text \<open>
  Modelled from the spec: \<open>addListener\<close> belongs to \<open>AbstractConnection\<close>. It
  appends the callback to the registry of its kind.
\<close>

definition addListener ::
  "jsval \<Rightarrow> jsval \<Rightarrow> 'a abstract_connection_scheme \<Rightarrow> 'a abstract_connection_scheme" where
  "addListener ty cb c = c\<lparr>listeners := listeners c @ [(ty, cb)]\<rparr>"

section \<open>The accessors\<close>

text \<open>The value of \<open>get response()\<close>: either \<open>JSON.parse\<close> of a value, or a value as it is.\<close>

datatype response_value = JSON_parse jsval | As_is jsval

definition response :: "connection \<Rightarrow> response_value" where
  "response c =
     (if responseType c = JStr ''json'' \<and> truthy (x_response (xhr c))
         \<and> x_responseType (xhr c) = JStr ''''
      then JSON_parse (x_response (xhr c))
      else As_is (x_response (xhr c)))"

definition status :: "connection \<Rightarrow> nat" where
  "status c = x_status (xhr c)"

section \<open>open and close\<close>

definition apply_headers :: "(string \<times> jsval) list \<Rightarrow> world \<Rightarrow> world" where
  "apply_headers kvs w =
     fold (\<lambda>kv w. if snd kv \<noteq> JUndefined \<and> snd kv \<noteq> JNull
                  then setRequestHeader (fst kv) (snd kv) w else w) kvs w"

text \<open>The five listeners \<open>open\<close> registers on the handle, as bodies.\<close>

fun handler :: "signal \<Rightarrow> world \<Rightarrow> world" where
  "handler SigProgress w = setTimeout Ev_DATA w"
| "handler SigLoad w =
     (let w = set_state CLOSED w;
          w = set_closed w
      in if status (conn w) < 400 then setTimeout Ev_COMPLETE w
         else setTimeout Ev_ERROR w)"
| "handler SigAbort w =
     (let w = set_state CLOSED w;
          w = set_closed w
      in setTimeout Ev_ABORT w)"
| "handler SigError w =
     (let w = set_state CLOSED w;
          w = set_closed w
      in setTimeout Ev_ERROR w)"
| "handler SigTimeout w =
     (let w = set_state CLOSED w;
          w = set_closed w
      in setTimeout Ev_ERROR w)"

definition send_request :: "world \<Rightarrow> world \<times> (error + jsret)" where
  "send_request w =
     (let w = xhr_set_responseType (responseType (conn w)) w;
          w = xhr_send (body (conn w)) w
      in (w, Inr RetThis))"

text \<open>
  \<open>open(headers)\<close> returns the world it leaves behind together with what it
  returns or throws: what it has done before it throws stays done.
\<close>

definition "open" :: "jsval \<Rightarrow> world \<Rightarrow> world \<times> (error + jsret)" where
  "open hs w =
     (if state (conn w) \<noteq> INIT then (w, Inr RetUndefined)
      else
        let w = addEventListener SigProgress w;
            w = addEventListener SigLoad w;
            w = addEventListener SigAbort w;
            w = addEventListener SigError w;
            w = addEventListener SigTimeout w;
            w = xhr_open (request_method (conn w)) (url (conn w)) w;
            w = xhr_set_timeout (timeout (conn w)) w;
            w = set_state OPEN w;
            w = set_opened w;
            w = setTimeout Ev_OPEN w
        in case Object_entries (headers (conn w)) of
             None \<Rightarrow> (w, Inl TypeError)
           | Some kvs \<Rightarrow>
               let w = apply_headers kvs w
               in if js_typeof hs = ''object''
                  then (case Object_entries hs of
                          None \<Rightarrow> (w, Inl TypeError)
                        | Some kvs' \<Rightarrow> send_request (apply_headers kvs' w))
                  else send_request w)"

text \<open>
  \<open>close()\<close>: two \<open>if\<close> statements, one after the other. In state OPEN it
  asks the transport to abort; the abort signal is the transport's answer.
\<close>

definition close :: "world \<Rightarrow> world" where
  "close w =
     (let w = (if state (conn w) = INIT
               then (let w = set_state CLOSED w;
                         w = set_closed w
                     in setTimeout Ev_ABORT w)
               else w)
      in if state (conn w) = OPEN then xhr_abort w else w)"

section \<open>The constructor\<close>

text \<open>
  Modelled from the spec: the constructor of \<open>AbstractConnection\<close>, which the source
  calls as \<open>super(url)\<close>.
\<close>

definition AbstractConnection :: "jsval \<Rightarrow> abstract_connection" where
  "AbstractConnection u =
     \<lparr>url = u, state = INIT, opened = None, closed = None, listeners = []\<rparr>"

definition new_XMLHttpRequest :: xhr_handle where
  "new_XMLHttpRequest =
     \<lparr>wired = [], x_timeout = JNum (NInt 0), x_responseType = JStr '''',
      x_response = JStr '''', x_status = 0\<rparr>"

text \<open>The body of \<open>listeners.forEach\<close>: the first failing check throws.\<close>

fun add_listeners ::
  "jsval list \<Rightarrow> abstract_connection \<Rightarrow> error + abstract_connection" where
  "add_listeners [] c = Inr c"
| "add_listeners (l # ls) c =
     (if \<not> truthy l \<or> js_typeof l \<noteq> ''object'' then Inl InvalidListenerObject
      else if \<not> ConnectionEvent_includes (get_prop l ''type'')
        then Inl (throw_Error UnknownEventType (get_prop l ''type''))
      else if js_typeof (get_prop l ''callback'') \<noteq> ''function''
        then Inl (throw_Error InvalidCallback (get_prop l ''type''))
      else add_listeners ls (addListener (get_prop l ''type'') (get_prop l ''callback'') c))"

definition construct ::
  "abstract_connection \<Rightarrow> jsval \<Rightarrow> jsval \<Rightarrow> jsval \<Rightarrow> jsval \<Rightarrow> jsval \<Rightarrow> jsval \<Rightarrow> runtime
     \<Rightarrow> runtime \<times> (error + connection)" where
  "construct c m b h t ti op r =
     (let r = r\<lparr>trace := trace r @ [NewXHR]\<rparr>;
          this = \<lparr>url = url c, state = state c, opened = opened c, closed = closed c,
                  listeners = listeners c, request_method = m, body = b, headers = h,
                  responseType = t, timeout = ti, xhr = new_XMLHttpRequest\<rparr>
      in if truthy op
         then (case open JUndefined \<lparr>conn = this, rt = r\<rparr> of
                 (w, Inl e) \<Rightarrow> (rt w, Inl e)
               | (w, Inr v) \<Rightarrow> (rt w, Inr (conn w)))
         else (r, Inr this))"

definition XHRConnection :: "jsval \<Rightarrow> jsval \<Rightarrow> runtime \<Rightarrow> runtime \<times> (error + connection)" where
  "XHRConnection u opts r =
     (let c = AbstractConnection u;
          options = dflt (JObj []) opts
      in if options = JNull then (r, Inl TypeError)
         else
           let m = dflt (JStr ''GET'') (get_prop options ''method'');
               b = dflt JNull (get_prop options ''body'');
               h = dflt (JObj [(''Accept'', JStr ''application/json'')]) (get_prop options ''headers'');
               t = dflt (JStr ''json'') (get_prop options ''responseType'');
               ti = dflt (JNum (NInt 0)) (get_prop options ''timeout'');
               ls = dflt (JArr []) (get_prop options ''listeners'')
           in if m \<notin> set ALLOWED_METHODS then (r, Inl (throw_Error InvalidMethod m))
              else if t \<notin> set ALLOWED_RESPONSE_TYPES
                then (r, Inl (throw_Error InvalidResponseType t))
              else if js_typeof h \<noteq> ''object'' then (r, Inl InvalidHeaders)
              else if \<not> Number_isSafeInteger ti \<or> js_negative ti
                then (r, Inl (throw_Error InvalidTimeout ti))
              else (case ls of
                      JArr xs \<Rightarrow>
                        (case add_listeners xs c of
                           Inl e \<Rightarrow> (r, Inl e)
                         | Inr c \<Rightarrow> construct c m b h t ti (get_prop options ''open'') r)
                    | _ \<Rightarrow> (r, Inl InvalidListenersArray)))"

section \<open>The event loop\<close>

text \<open>
  What can happen to a connection: the caller calls \<open>open\<close> or \<open>close\<close>, the
  transport reports a status or fires one of its five signals, the oldest pending timer
  runs, or time passes.
\<close>

datatype action =
    CallOpen jsval
  | CallClose
  | Status nat
  | Signal signal
  | RunTimer
  | Tick nat

text \<open>The handle invokes the listeners registered for the signal, in registration order.\<close>

definition dispatchEvent :: "signal \<Rightarrow> world \<Rightarrow> world" where
  "dispatchEvent s w =
     fold (\<lambda>s' w. if s' = s then handler s' w else w) (wired (xhr (conn w))) w"

definition run_timer :: "world \<Rightarrow> world" where
  "run_timer w =
     (case timers (rt w) of
        [] \<Rightarrow> w
      | k # ks \<Rightarrow> emit k (w\<lparr>rt := (rt w)\<lparr>timers := ks\<rparr>\<rparr>))"

fun step :: "action \<Rightarrow> world \<Rightarrow> world" where
  "step (CallOpen hs) w = fst (open hs w)"
| "step CallClose w = close w"
| "step (Status n) w = w\<lparr>conn := (conn w)\<lparr>xhr := (xhr (conn w))\<lparr>x_status := n\<rparr>\<rparr>\<rparr>"
| "step (Signal s) w = dispatchEvent s w"
| "step RunTimer w = run_timer w"
| "step (Tick n) w = w\<lparr>rt := (rt w)\<lparr>clock := clock (rt w) + n\<rparr>\<rparr>"

definition run :: "action list \<Rightarrow> world \<Rightarrow> world" where
  "run as w = fold step as w"

section \<open>Vocabulary of the properties\<close>

subsection \<open>What open does\<close>

text \<open>The five listeners of \<open>open\<close>, in the order it registers them.\<close>

definition wired_by_open :: "signal list" where
  "wired_by_open = [SigProgress, SigLoad, SigAbort, SigError, SigTimeout]"

text \<open>The \<open>setRequestHeader\<close> calls for a list of entries: those with a value.\<close>

definition header_calls :: "(string \<times> jsval) list \<Rightarrow> effect list" where
  "header_calls kvs =
     map (\<lambda>kv. SetRequestHeader (fst kv) (snd kv))
       (filter (\<lambda>kv. snd kv \<noteq> JUndefined \<and> snd kv \<noteq> JNull) kvs)"

text \<open>
  The effects of \<open>open\<close> up to the timer of the OPEN event, those of its last two
  statements, and the world it has reached when it starts on the headers.
\<close>

definition opening_effects :: "connection \<Rightarrow> nat \<Rightarrow> effect list" where
  "opening_effects c t =
     [AddEventListener SigProgress, AddEventListener SigLoad, AddEventListener SigAbort,
      AddEventListener SigError, AddEventListener SigTimeout,
      XhrOpen (request_method c) (url c), XhrSetTimeout (timeout c),
      SetState OPEN, SetOpened t, SetTimeout Ev_OPEN]"

definition sending_effects :: "connection \<Rightarrow> effect list" where
  "sending_effects c = [XhrSetResponseType (responseType c), XhrSend (body c)]"

definition after_opening :: "world \<Rightarrow> world" where
  "after_opening w =
     \<lparr>conn = (conn w)\<lparr>state := OPEN, opened := Some (clock (rt w)),
                       xhr := (xhr (conn w))\<lparr>wired := wired (xhr (conn w)) @ wired_by_open,
                                               x_timeout := timeout (conn w)\<rparr>\<rparr>,
      rt = (rt w)\<lparr>timers := timers (rt w) @ [Ev_OPEN],
                   trace := trace (rt w) @ opening_effects (conn w) (clock (rt w))\<rparr>\<rparr>"

text \<open>
  The entries of the argument of \<open>open\<close>: none when it is not of type object,
  \<open>None\<close> when enumerating it raises.
\<close>

definition extra_entries :: "jsval \<Rightarrow> (string \<times> jsval) list option" where
  "extra_entries hs = (if js_typeof hs = ''object'' then Object_entries hs else Some [])"

subsection \<open>Reading the trace\<close>

fun is_send :: "effect \<Rightarrow> bool" where
  "is_send (XhrSend b) = True"
| "is_send e = False"

fun is_emit :: "effect \<Rightarrow> bool" where
  "is_emit (Emit k cbs s t1 t2) = True"
| "is_emit e = False"

fun is_mutation :: "effect \<Rightarrow> bool" where
  "is_mutation (SetState s) = True"
| "is_mutation (SetOpened t) = True"
| "is_mutation (SetClosed t) = True"
| "is_mutation e = False"

fun emit_kinds :: "effect \<Rightarrow> event_kind list" where
  "emit_kinds (Emit k cbs s t1 t2) = [k]"
| "emit_kinds e = []"

text \<open>The sends of the transport and the kinds of the events emitted so far, in order.\<close>

definition sends :: "world \<Rightarrow> effect list" where
  "sends w = filter is_send (trace (rt w))"

definition emitted :: "world \<Rightarrow> event_kind list" where
  "emitted w = concat (map emit_kinds (trace (rt w)))"

text \<open>Letting every pending timer run.\<close>

definition drain :: "world \<Rightarrow> world" where
  "drain w = run (replicate (length (timers (rt w))) RunTimer) w"

text \<open>
  The effects of one call or listener are in deferred order when none of them is an
  emission and no assignment to \<open>state\<close>, \<open>opened\<close> or \<open>closed\<close> follows a
  timer.
\<close>

fun deferred_order :: "effect list \<Rightarrow> bool" where
  "deferred_order [] = True"
| "deferred_order (SetTimeout k # es) = (filter is_mutation es = [] \<and> deferred_order es)"
| "deferred_order (Emit k cbs s t1 t2 # es) = False"
| "deferred_order (e # es) = deferred_order es"

subsection \<open>The lifecycle\<close>

text \<open>The order INIT, OPEN, CLOSED: \<open>forward s s'\<close> when \<open>s'\<close> is \<open>s\<close> or later.\<close>

fun forward :: "conn_state \<Rightarrow> conn_state \<Rightarrow> bool" where
  "forward INIT s = True"
| "forward OPEN s = (s \<noteq> INIT)"
| "forward CLOSED s = (s = CLOSED)"

text \<open>
  The reaction to a transport signal, as a table: the kind of the event, given the status
  the transport reports, and the world after the listener.
\<close>

fun reaction_kind :: "signal \<Rightarrow> nat \<Rightarrow> event_kind" where
  "reaction_kind SigProgress st = Ev_DATA"
| "reaction_kind SigLoad st = (if st < 400 then Ev_COMPLETE else Ev_ERROR)"
| "reaction_kind SigAbort st = Ev_ABORT"
| "reaction_kind SigError st = Ev_ERROR"
| "reaction_kind SigTimeout st = Ev_ERROR"

definition reaction :: "signal \<Rightarrow> world \<Rightarrow> world" where
  "reaction s w =
     (let k = reaction_kind s (status (conn w))
      in if s = SigProgress
         then \<lparr>conn = conn w,
               rt = (rt w)\<lparr>timers := timers (rt w) @ [k],
                            trace := trace (rt w) @ [SetTimeout k]\<rparr>\<rparr>
         else \<lparr>conn = (conn w)\<lparr>state := CLOSED, closed := Some (clock (rt w))\<rparr>,
               rt = (rt w)\<lparr>timers := timers (rt w) @ [k],
                            trace := trace (rt w) @
                              [SetState CLOSED, SetClosed (clock (rt w)), SetTimeout k]\<rparr>\<rparr>)"








text \<open>
  What a listener of an event of kind \<open>k\<close> may rely on when it reads \<open>state\<close>,
  \<open>opened\<close> and \<open>closed\<close>: the transition the event reports has happened.
\<close>

fun settled :: "event_kind \<Rightarrow> conn_state \<Rightarrow> nat option \<Rightarrow> nat option \<Rightarrow> bool" where
  "settled Ev_OPEN s t1 t2 = (s \<noteq> INIT \<and> t1 \<noteq> None)"
| "settled Ev_DATA s t1 t2 = True"
| "settled Ev_COMPLETE s t1 t2 = (s = CLOSED \<and> t2 \<noteq> None)"
| "settled Ev_ERROR s t1 t2 = (s = CLOSED \<and> t2 \<noteq> None)"
| "settled Ev_ABORT s t1 t2 = (s = CLOSED \<and> t2 \<noteq> None)"

fun settled_effect :: "effect \<Rightarrow> bool" where
  "settled_effect (Emit k cbs s t1 t2) = settled k s t1 t2"
| "settled_effect e = True"

text \<open>
  The invariant of the worlds that a constructed connection can reach: the handle carries
  no listener before \<open>open\<close> and exactly the five afterwards, nothing is stamped or
  sent in state INIT, and every pending timer and every past emission is settled.
\<close>

definition lifecycle_inv :: "world \<Rightarrow> bool" where
  "lifecycle_inv w \<longleftrightarrow>
     (wired (xhr (conn w)) = [] \<or> wired (xhr (conn w)) = wired_by_open) \<and>
     (state (conn w) = INIT \<longrightarrow>
        wired (xhr (conn w)) = [] \<and> opened (conn w) = None
        \<and> filter is_send (trace (rt w)) = []) \<and>
     (state (conn w) = OPEN \<longrightarrow> wired (xhr (conn w)) = wired_by_open) \<and>
     list_all (\<lambda>k. settled k (state (conn w)) (opened (conn w)) (closed (conn w)))
       (timers (rt w)) \<and>
     list_all settled_effect (trace (rt w))"


subsection \<open>The checks of the constructor\<close>

text \<open>
  An option after its default, a listener entry the constructor accepts, and the
  conjunction of the constructor's checks as the source tests them.
\<close>

definition option_or :: "jsval \<Rightarrow> string \<Rightarrow> jsval \<Rightarrow> jsval" where
  "option_or opts name d = dflt d (get_prop (dflt (JObj []) opts) name)"

fun well_shaped_listener :: "jsval \<Rightarrow> bool" where
  "well_shaped_listener (JObj kvs) =
     (ConnectionEvent_includes (get_prop (JObj kvs) ''type'')
      \<and> js_typeof (get_prop (JObj kvs) ''callback'') = ''function'')"
| "well_shaped_listener v = False"

definition checks_pass :: "jsval \<Rightarrow> bool" where
  "checks_pass opts \<longleftrightarrow>
     option_or opts ''method'' (JStr ''GET'') \<in> set ALLOWED_METHODS
     \<and> option_or opts ''responseType'' (JStr ''json'') \<in> set ALLOWED_RESPONSE_TYPES
     \<and> js_typeof (option_or opts ''headers'' (JObj [(''Accept'', JStr ''application/json'')]))
           = ''object''
     \<and> Number_isSafeInteger (option_or opts ''timeout'' (JNum (NInt 0)))
     \<and> \<not> js_negative (option_or opts ''timeout'' (JNum (NInt 0)))
     \<and> (case option_or opts ''listeners'' (JArr []) of
            JArr xs \<Rightarrow> list_all well_shaped_listener xs
          | _ \<Rightarrow> False)"

subsection \<open>Sample inputs\<close>

text \<open>
  A runtime in which nothing has happened yet; the connection
  \<open>new XHRConnection("/api")\<close> constructed at time 7, and the one constructed from the
  options \<open>{headers: null}\<close>.
\<close>

definition fresh :: "nat \<Rightarrow> runtime" where
  "fresh t = \<lparr>clock = t, timers = [], trace = []\<rparr>"

definition default_connection :: connection where
  "default_connection =
     \<lparr>url = JStr ''/api'', state = INIT, opened = None, closed = None, listeners = [],
      request_method = JStr ''GET'', body = JNull,
      headers = JObj [(''Accept'', JStr ''application/json'')],
      responseType = JStr ''json'', timeout = JNum (NInt 0), xhr = new_XMLHttpRequest\<rparr>"

definition default_world :: world where
  "default_world =
     \<lparr>conn = default_connection, rt = \<lparr>clock = 7, timers = [], trace = [NewXHR]\<rparr>\<rparr>"

definition null_headers_world :: world where
  "null_headers_world =
     \<lparr>conn = default_connection\<lparr>headers := JNull\<rparr>,
      rt = \<lparr>clock = 7, timers = [], trace = [NewXHR]\<rparr>\<rparr>"

section \<open>Lemmas\<close>

subsection \<open>The primitive statements\<close>

text \<open>
  Each primitive statement, read through the two halves of the world.
\<close>

lemmas prim_defs = log_def Date_now_def set_state_def set_opened_def set_closed_def
  setTimeout_def addEventListener_def xhr_open_def xhr_set_timeout_def setRequestHeader_def
  xhr_set_responseType_def xhr_send_def xhr_abort_def emit_def

lemma conn_prims:
  "conn (log e w) = conn w"
  "conn (set_state s w) = (conn w)\<lparr>state := s\<rparr>"
  "conn (set_opened w) = (conn w)\<lparr>opened := Some (clock (rt w))\<rparr>"
  "conn (set_closed w) = (conn w)\<lparr>closed := Some (clock (rt w))\<rparr>"
  "conn (setTimeout k w) = conn w"
  "conn (addEventListener sg w) = (conn w)\<lparr>xhr := (xhr (conn w))\<lparr>wired := wired (xhr (conn w)) @ [sg]\<rparr>\<rparr>"
  "conn (xhr_open m u w) = conn w"
  "conn (xhr_set_timeout t w) = (conn w)\<lparr>xhr := (xhr (conn w))\<lparr>x_timeout := t\<rparr>\<rparr>"
  "conn (setRequestHeader k' v w) = conn w"
  "conn (xhr_set_responseType t w) = (conn w)\<lparr>xhr := (xhr (conn w))\<lparr>x_responseType := t\<rparr>\<rparr>"
  "conn (xhr_send b w) = conn w"
  "conn (xhr_abort w) = conn w"
  "conn (emit k w) = conn w"
  by (simp_all add: prim_defs)

lemma rt_prims:
  "rt (log e w) = (rt w)\<lparr>trace := trace (rt w) @ [e]\<rparr>"
  "rt (set_state s w) = (rt w)\<lparr>trace := trace (rt w) @ [SetState s]\<rparr>"
  "rt (set_opened w) = (rt w)\<lparr>trace := trace (rt w) @ [SetOpened (clock (rt w))]\<rparr>"
  "rt (set_closed w) = (rt w)\<lparr>trace := trace (rt w) @ [SetClosed (clock (rt w))]\<rparr>"
  "rt (setTimeout k w) = (rt w)\<lparr>timers := timers (rt w) @ [k], trace := trace (rt w) @ [SetTimeout k]\<rparr>"
  "rt (addEventListener sg w) = (rt w)\<lparr>trace := trace (rt w) @ [AddEventListener sg]\<rparr>"
  "rt (xhr_open m u w) = (rt w)\<lparr>trace := trace (rt w) @ [XhrOpen m u]\<rparr>"
  "rt (xhr_set_timeout t w) = (rt w)\<lparr>trace := trace (rt w) @ [XhrSetTimeout t]\<rparr>"
  "rt (setRequestHeader k' v w) = (rt w)\<lparr>trace := trace (rt w) @ [SetRequestHeader k' v]\<rparr>"
  "rt (xhr_set_responseType t w) = (rt w)\<lparr>trace := trace (rt w) @ [XhrSetResponseType t]\<rparr>"
  "rt (xhr_send b w) = (rt w)\<lparr>trace := trace (rt w) @ [XhrSend b]\<rparr>"
  "rt (xhr_abort w) = (rt w)\<lparr>trace := trace (rt w) @ [XhrAbort]\<rparr>"
  by (simp_all add: prim_defs)

subsection \<open>open\<close>

text \<open>
  The loop over the headers only adds \<open>setRequestHeader\<close> calls to the trace. With
  it, \<open>open\<close> in state INIT is its first ten statements followed by a case distinction
  on whether the configured headers and the headers passed can be enumerated.
\<close>

lemma apply_headers_eq:
  "apply_headers kvs w = w\<lparr>rt := (rt w)\<lparr>trace := trace (rt w) @ header_calls kvs\<rparr>\<rparr>"
proof (induction kvs arbitrary: w)
  case Nil
  show ?case by (simp add: apply_headers_def header_calls_def)
next
  case (Cons kv kvs)
  have "apply_headers (kv # kvs) w =
          apply_headers kvs (if snd kv \<noteq> JUndefined \<and> snd kv \<noteq> JNull
                             then setRequestHeader (fst kv) (snd kv) w else w)"
    by (simp add: apply_headers_def)
  then show ?case
    by (simp add: Cons.IH header_calls_def setRequestHeader_def log_def)
qed

lemma conn_apply_headers: "conn (apply_headers kvs w) = conn w"
  by (simp add: apply_headers_eq)

lemma rt_apply_headers:
  "rt (apply_headers kvs w) = (rt w)\<lparr>trace := trace (rt w) @ header_calls kvs\<rparr>"
  by (simp add: apply_headers_eq)

lemma header_calls_no_send: "filter is_send (header_calls kvs) = []"
  by (induction kvs) (simp_all add: header_calls_def)

lemma header_calls_no_emit: "filter is_emit (header_calls kvs) = []"
  by (induction kvs) (simp_all add: header_calls_def)

lemma header_calls_no_mutation: "filter is_mutation (header_calls kvs) = []"
  by (induction kvs) (simp_all add: header_calls_def)

lemma deferred_header_calls: "deferred_order (header_calls kvs @ es) = deferred_order es"
  by (induction kvs) (simp_all add: header_calls_def)

lemma deferred_header_calls': "deferred_order (header_calls kvs)"
  using deferred_header_calls [of kvs "[]"] by simp

lemma settled_header_calls: "list_all settled_effect (header_calls kvs)"
  by (induction kvs) (simp_all add: header_calls_def)

lemma opening_chain:
  "setTimeout Ev_OPEN (set_opened (set_state OPEN (xhr_set_timeout (timeout (conn w))
     (xhr_open (request_method (conn w)) (url (conn w))
       (addEventListener SigTimeout (addEventListener SigError (addEventListener SigAbort
         (addEventListener SigLoad (addEventListener SigProgress w))))))))) = after_opening w"
  by (rule world.equality)
     (simp_all add: conn_prims rt_prims after_opening_def wired_by_open_def opening_effects_def)

lemma open_INIT:
  assumes "state (conn w) = INIT"
  shows "open hs w =
     (case Object_entries (headers (conn w)) of
        None \<Rightarrow> (after_opening w, Inl TypeError)
      | Some kvs \<Rightarrow>
          if js_typeof hs = ''object''
          then (case Object_entries hs of
                  None \<Rightarrow> (apply_headers kvs (after_opening w), Inl TypeError)
                | Some kvs' \<Rightarrow> send_request (apply_headers kvs' (apply_headers kvs (after_opening w))))
          else send_request (apply_headers kvs (after_opening w)))"
  unfolding open_def Let_def
  by (simp add: assms conn_prims opening_chain after_opening_def [THEN arg_cong, of conn]
        cong: option.case_cong if_cong)

lemma open_not_INIT: "state (conn w) \<noteq> INIT \<Longrightarrow> open hs w = (w, Inr RetUndefined)"
  by (simp add: open_def)

lemma send_request_eq:
  "snd (send_request w) = Inr RetThis"
  "conn (fst (send_request w)) =
     (conn w)\<lparr>xhr := (xhr (conn w))\<lparr>x_responseType := responseType (conn w)\<rparr>\<rparr>"
  "rt (fst (send_request w)) = (rt w)\<lparr>trace := trace (rt w) @ sending_effects (conn w)\<rparr>"
  by (simp_all add: send_request_def Let_def conn_prims rt_prims sending_effects_def)

text \<open>
  When both can be enumerated, \<open>open\<close> in state INIT returns the connection: the
  state is OPEN and \<open>opened\<close> is stamped before anything is sent, the configured headers
  are applied before the headers passed, entries without a value are skipped, and the
  response type is set before the body is sent.
\<close>

lemma open_returns:
  assumes "state (conn w) = INIT"
      and "Object_entries (headers (conn w)) = Some kvs"
      and "extra_entries hs = Some kvs'"
  shows "snd (open hs w) = Inr RetThis"
    and "conn (fst (open hs w)) =
           (conn w)\<lparr>state := OPEN, opened := Some (clock (rt w)),
                    xhr := (xhr (conn w))\<lparr>wired := wired (xhr (conn w)) @ wired_by_open,
                                            x_timeout := timeout (conn w),
                                            x_responseType := responseType (conn w)\<rparr>\<rparr>"
    and "rt (fst (open hs w)) =
           (rt w)\<lparr>timers := timers (rt w) @ [Ev_OPEN],
                  trace := trace (rt w) @ opening_effects (conn w) (clock (rt w))
                             @ header_calls kvs @ header_calls kvs' @ sending_effects (conn w)\<rparr>"
  using assms(2,3)
  by (simp_all add: open_INIT [OF assms(1)] send_request_eq conn_apply_headers rt_apply_headers
        extra_entries_def after_opening_def header_calls_def sending_effects_def split: if_splits)

text \<open>
  When one of them is \<open>null\<close>, \<open>open\<close> throws after it has moved the state
  to OPEN, and a \<open>TypeError\<close> is the only error it throws.
\<close>

lemma open_throws_base:
  assumes "state (conn w) = INIT"
      and "Object_entries (headers (conn w)) = None"
  shows "open hs w = (after_opening w, Inl TypeError)"
  using assms(2) by (simp add: open_INIT [OF assms(1)])

lemma open_throws_extra:
  assumes "state (conn w) = INIT"
      and "Object_entries (headers (conn w)) = Some kvs"
      and "extra_entries hs = None"
  shows "open hs w = (apply_headers kvs (after_opening w), Inl TypeError)"
  using assms(2,3) by (simp add: open_INIT [OF assms(1)] extra_entries_def split: if_splits)

lemma open_throws_only_TypeError: "snd (open hs w) = Inl e \<Longrightarrow> e = TypeError"
  by (cases "state (conn w) = INIT")
     (auto simp: open_INIT open_not_INIT send_request_eq split: option.splits if_splits)

lemma open_throws_pair: "open hs w = (w', Inl e) \<Longrightarrow> e = TypeError"
  using open_throws_only_TypeError [of hs w e] by simp

text \<open>
  What every call of \<open>open\<close> in state INIT does, whatever its outcome.
\<close>

lemma open_INIT_fields:
  assumes "state (conn w) = INIT"
  shows "state (conn (fst (open hs w))) = OPEN"
    and "opened (conn (fst (open hs w))) = Some (clock (rt w))"
    and "closed (conn (fst (open hs w))) = closed (conn w)"
    and "wired (xhr (conn (fst (open hs w)))) = wired (xhr (conn w)) @ wired_by_open"
    and "x_status (xhr (conn (fst (open hs w)))) = x_status (xhr (conn w))"
    and "timers (rt (fst (open hs w))) = timers (rt w) @ [Ev_OPEN]"
    and "clock (rt (fst (open hs w))) = clock (rt w)"
    and "filter is_emit (trace (rt (fst (open hs w)))) = filter is_emit (trace (rt w))"
  by (simp_all add: open_INIT [OF assms] send_request_eq conn_apply_headers rt_apply_headers
        after_opening_def opening_effects_def sending_effects_def header_calls_no_emit
        split: option.splits)

lemma sends_after_opening: "sends (after_opening w) = sends w"
  by (simp add: sends_def after_opening_def opening_effects_def)

lemma segment_open:
  assumes "state (conn w) = INIT"
  shows "\<exists>seg. trace (rt (fst (open hs w))) = trace (rt w) @ seg \<and> deferred_order seg"
proof -
  have "\<exists>seg. trace (rt (fst (open hs w))) =
                 trace (rt w) @ opening_effects (conn w) (clock (rt w)) @ seg
              \<and> filter is_mutation seg = [] \<and> deferred_order seg"
    by (auto simp: open_INIT [OF assms] send_request_eq conn_apply_headers rt_apply_headers
          after_opening_def sending_effects_def header_calls_no_mutation
          deferred_header_calls deferred_header_calls' split: option.splits)
  then obtain seg where
    "trace (rt (fst (open hs w))) = trace (rt w) @ opening_effects (conn w) (clock (rt w)) @ seg"
    "filter is_mutation seg = []" "deferred_order seg"
    by blast
  then have "trace (rt (fst (open hs w))) =
               trace (rt w) @ (opening_effects (conn w) (clock (rt w)) @ seg)
             \<and> deferred_order (opening_effects (conn w) (clock (rt w)) @ seg)"
    by (simp add: opening_effects_def)
  then show ?thesis by blast
qed

subsection \<open>close, the listeners, the timers and runs\<close>

lemma close_eq:
  "state (conn w) = INIT \<Longrightarrow>
     conn (close w) = (conn w)\<lparr>state := CLOSED, closed := Some (clock (rt w))\<rparr>"
  "state (conn w) = INIT \<Longrightarrow>
     rt (close w) = (rt w)\<lparr>timers := timers (rt w) @ [Ev_ABORT],
        trace := trace (rt w) @ [SetState CLOSED, SetClosed (clock (rt w)), SetTimeout Ev_ABORT]\<rparr>"
  "state (conn w) = OPEN \<Longrightarrow> conn (close w) = conn w"
  "state (conn w) = OPEN \<Longrightarrow> rt (close w) = (rt w)\<lparr>trace := trace (rt w) @ [XhrAbort]\<rparr>"
  "state (conn w) = CLOSED \<Longrightarrow> close w = w"
  by (simp_all add: close_def Let_def conn_prims rt_prims)

lemma handler_eq:
  "conn (handler s w) =
     (if s = SigProgress then conn w
      else (conn w)\<lparr>state := CLOSED, closed := Some (clock (rt w))\<rparr>)"
  "rt (handler s w) =
     (rt w)\<lparr>timers := timers (rt w) @ [reaction_kind s (x_status (xhr (conn w)))],
            trace := trace (rt w)
              @ (if s = SigProgress then [] else [SetState CLOSED, SetClosed (clock (rt w))])
              @ [SetTimeout (reaction_kind s (x_status (xhr (conn w))))]\<rparr>"
  by (cases s; simp add: Let_def conn_prims rt_prims status_def)+

lemma reaction_handler: "handler s w = reaction s w"
  by (rule world.equality) (auto simp: handler_eq reaction_def Let_def status_def)

lemma emitted_reaction: "emitted (reaction s w) = emitted w"
  by (simp add: reaction_def emitted_def Let_def)

lemma timers_reaction:
  "timers (rt (reaction s w)) = timers (rt w) @ [reaction_kind s (status (conn w))]"
  by (simp add: reaction_def Let_def)

lemma dispatch_unwired: "wired (xhr (conn w)) = [] \<Longrightarrow> dispatchEvent s w = w"
  by (simp add: dispatchEvent_def)

lemma dispatch_wired: "wired (xhr (conn w)) = wired_by_open \<Longrightarrow> dispatchEvent s w = handler s w"
  by (cases s) (simp_all add: dispatchEvent_def wired_by_open_def)

lemma run_timer_eq:
  "timers (rt w) = [] \<Longrightarrow> run_timer w = w"
  "timers (rt w) = k # ks \<Longrightarrow> conn (run_timer w) = conn w"
  "timers (rt w) = k # ks \<Longrightarrow>
     rt (run_timer w) =
       (rt w)\<lparr>timers := ks,
              trace := trace (rt w) @
                [Emit k (map snd (filter (\<lambda>l. fst l = ConnectionEvent_kind k) (listeners (conn w))))
                   (state (conn w)) (opened (conn w)) (closed (conn w))]\<rparr>"
  by (simp_all add: run_timer_def emit_def log_def)

lemma run_Nil: "run [] w = w"
  by (simp add: run_def)

lemma run_Cons: "run (a # as) w = run as (step a w)"
  by (simp add: run_def)

lemma run_append: "run (as @ bs) w = run bs (run as w)"
  by (simp add: run_def)

lemma drain_emitted_aux:
  "n \<le> length (timers (rt w)) \<Longrightarrow>
     emitted (run (replicate n RunTimer) w) = emitted w @ take n (timers (rt w))"
proof (induction n arbitrary: w)
  case 0
  show ?case by (simp add: run_Nil)
next
  case (Suc n)
  then obtain k ks where ts: "timers (rt w) = k # ks"
    by (cases "timers (rt w)") auto
  have "emitted (run (replicate n RunTimer) (run_timer w)) =
          emitted (run_timer w) @ take n (timers (rt (run_timer w)))"
    using Suc.prems ts by (intro Suc.IH) (simp add: run_timer_eq)
  then show ?case
    using ts by (simp add: run_Cons run_timer_eq emitted_def)
qed

lemma drain_emitted: "emitted (drain w) = emitted w @ timers (rt w)"
  by (simp add: drain_def drain_emitted_aux)

text \<open>
  Calling \<open>open\<close> again changes nothing: any number of calls is the first call. When
  the first call returns, that is one timer for the OPEN event and one send.
\<close>

lemma open_calls_noop: "state (conn w) \<noteq> INIT \<Longrightarrow> run (map CallOpen hs) w = w"
  by (induction hs) (simp_all add: run_Nil run_Cons open_not_INIT)

lemma open_idempotent: "run (CallOpen h # map CallOpen hs) w = fst (open h w)"
proof (cases "state (conn w) = INIT")
  case True
  then have "state (conn (fst (open h w))) \<noteq> INIT"
    by (simp add: open_INIT_fields)
  then show ?thesis
    by (simp add: run_Cons open_calls_noop)
next
  case False
  then show ?thesis
    by (simp add: run_Cons open_calls_noop open_not_INIT)
qed

lemma open_repeated_once:
  assumes "state (conn w) = INIT"
      and "Object_entries (headers (conn w)) = Some kvs"
      and "extra_entries h = Some kvs'"
  shows "sends (run (CallOpen h # map CallOpen hs) w) = sends w @ [XhrSend (body (conn w))]"
    and "timers (rt (run (CallOpen h # map CallOpen hs) w)) = timers (rt w) @ [Ev_OPEN]"
  by (simp_all add: open_idempotent open_returns [OF assms] sends_def opening_effects_def
        sending_effects_def header_calls_no_send)

subsection \<open>The state moves forward\<close>

lemma forward_refl: "forward s s"
  by (cases s) simp_all

lemma forward_trans: "forward a b \<Longrightarrow> forward b c \<Longrightarrow> forward a c"
  by (cases a; cases b; cases c) simp_all

lemma forward_CLOSED: "forward s CLOSED"
  by (cases s) simp_all

lemma state_fold_handler:
  "forward (state (conn w))
     (state (conn (fold (\<lambda>s' w. if s' = s then handler s' w else w) xs w)))"
proof (induction xs arbitrary: w)
  case Nil
  show ?case by (simp add: forward_refl)
next
  case (Cons x xs)
  have "forward (state (conn w)) (state (conn (if x = s then handler x w else w)))"
    by (simp add: handler_eq forward_refl forward_CLOSED)
  then show ?case
    using Cons.IH [of "if x = s then handler x w else w"]
    by (auto intro: forward_trans simp del: handler.simps)
qed

lemma forward_step: "forward (state (conn w)) (state (conn (step a w)))"
proof (cases a)
  case (CallOpen hs)
  then show ?thesis
    by (cases "state (conn w) = INIT") (simp_all add: open_INIT_fields open_not_INIT forward_refl)
next
  case CallClose
  then show ?thesis
    by (cases "state (conn w)") (simp_all add: close_eq)
next
  case (Signal s)
  then show ?thesis by (simp add: dispatchEvent_def state_fold_handler)
next
  case RunTimer
  then show ?thesis
    by (cases "timers (rt w)") (simp_all add: run_timer_eq forward_refl)
qed (simp_all add: forward_refl)

lemma forward_run: "forward (state (conn w)) (state (conn (run as w)))"
proof (induction as arbitrary: w)
  case Nil
  show ?case by (simp add: run_Nil forward_refl)
next
  case (Cons a as)
  show ?case
    using forward_step [of w a] Cons.IH [of "step a w"]
    by (auto simp: run_Cons intro: forward_trans)
qed

subsection \<open>The invariant\<close>

text \<open>
  Every step keeps the invariant, so every run does.
\<close>

lemma settled_mono:
  "settled k s t1 t2 \<Longrightarrow> forward s s' \<Longrightarrow> (t1 \<noteq> None \<longrightarrow> t1' \<noteq> None)
     \<Longrightarrow> (t2 \<noteq> None \<longrightarrow> t2' \<noteq> None) \<Longrightarrow> settled k s' t1' t2'"
  by (cases k; cases s; cases s') auto

lemma settled_all_mono:
  "list_all (\<lambda>k. settled k s t1 t2) ks \<Longrightarrow> forward s s' \<Longrightarrow> (t1 \<noteq> None \<longrightarrow> t1' \<noteq> None)
     \<Longrightarrow> (t2 \<noteq> None \<longrightarrow> t2' \<noteq> None) \<Longrightarrow> list_all (\<lambda>k. settled k s' t1' t2') ks"
  by (induction ks) (auto intro: settled_mono)

lemma settled_reaction: "s \<noteq> SigProgress \<Longrightarrow> settled (reaction_kind s st) CLOSED t1 (Some t)"
  by (cases s) simp_all

lemma settled_trace_open:
  assumes "state (conn w) = INIT" and "list_all settled_effect (trace (rt w))"
  shows "list_all settled_effect (trace (rt (fst (open hs w))))"
  using assms(2)
  by (simp add: open_INIT [OF assms(1)] send_request_eq conn_apply_headers rt_apply_headers
        after_opening_def opening_effects_def sending_effects_def settled_header_calls
        split: option.splits)

lemma inv_open: 
  assumes "lifecycle_inv w"
  shows "lifecycle_inv (fst (open hs w))"
proof (cases "state (conn w) = INIT")
  case True
  have t: "list_all (\<lambda>k. settled k OPEN (Some (clock (rt w))) (closed (conn w))) (timers (rt w))"
    using assms True
    by (auto simp: lifecycle_inv_def intro: settled_all_mono [where s' = OPEN])
  show ?thesis
    using assms True t settled_trace_open [OF True, of hs]
    by (simp add: lifecycle_inv_def open_INIT_fields [OF True])
next
  case False
  then show ?thesis using assms by (simp add: open_not_INIT)
qed

lemma inv_close:
  assumes "lifecycle_inv w"
  shows "lifecycle_inv (close w)"
proof (cases "state (conn w)")
  case INIT
  have t: "list_all (\<lambda>k. settled k CLOSED (opened (conn w)) (Some (clock (rt w)))) (timers (rt w))"
    using assms INIT
    by (auto simp: lifecycle_inv_def intro: settled_all_mono [where s' = CLOSED])
  show ?thesis
    using assms INIT t by (simp add: lifecycle_inv_def close_eq)
next
  case OPEN
  then show ?thesis using assms by (simp add: lifecycle_inv_def close_eq)
next
  case CLOSED
  then show ?thesis using assms by (simp add: close_eq)
qed

lemma inv_handler:
  assumes "lifecycle_inv w" and "wired (xhr (conn w)) = wired_by_open"
  shows "lifecycle_inv (handler s w)"
proof (cases "s = SigProgress")
  case True
  then show ?thesis
    using assms by (simp add: lifecycle_inv_def conn_prims rt_prims)
next
  case False
  have ne: "state (conn w) \<noteq> INIT"
    using assms by (auto simp: lifecycle_inv_def wired_by_open_def)
  have t: "list_all (\<lambda>k. settled k CLOSED (opened (conn w)) (Some (clock (rt w)))) (timers (rt w))"
    using assms
    by (auto simp: lifecycle_inv_def forward_CLOSED intro: settled_all_mono [where s' = CLOSED])
  show ?thesis
    using assms False ne t
    by (simp add: lifecycle_inv_def handler_eq settled_reaction)
qed

lemma inv_dispatch:
  assumes "lifecycle_inv w"
  shows "lifecycle_inv (dispatchEvent s w)"
proof -
  from assms have "wired (xhr (conn w)) = [] \<or> wired (xhr (conn w)) = wired_by_open"
    by (simp add: lifecycle_inv_def)
  then show ?thesis
    using assms by (auto simp: dispatch_unwired dispatch_wired inv_handler)
qed

lemma inv_run_timer:
  assumes "lifecycle_inv w"
  shows "lifecycle_inv (run_timer w)"
proof (cases "timers (rt w)")
  case Nil
  then show ?thesis using assms by (simp add: run_timer_eq)
next
  case (Cons k ks)
  then show ?thesis
    using assms by (simp add: lifecycle_inv_def run_timer_eq)
qed

lemma inv_step: "lifecycle_inv w \<Longrightarrow> lifecycle_inv (step a w)"
proof (cases a)
  case (Status n)
  assume "lifecycle_inv w"
  then show ?thesis using Status by (simp add: lifecycle_inv_def)
next
  case (Tick n)
  assume "lifecycle_inv w"
  then show ?thesis using Tick by (simp add: lifecycle_inv_def)
qed (simp_all add: inv_open inv_close inv_dispatch inv_run_timer)

lemma inv_run: "lifecycle_inv w \<Longrightarrow> lifecycle_inv (run as w)"
  unfolding run_def by (induction as arbitrary: w) (simp_all add: inv_step)

text \<open>
  What a step does to the sends, to the trace and to the two timestamps, under the invariant.
\<close>

lemma sends_step:
  assumes "lifecycle_inv w" and "state (conn w) \<noteq> INIT"
  shows "sends (step a w) = sends w"
proof (cases a)
  case (CallOpen hs)
  then show ?thesis using assms(2) by (simp add: open_not_INIT)
next
  case CallClose
  then show ?thesis using assms(2)
    by (cases "state (conn w)") (simp_all add: close_eq sends_def)
next
  case (Signal s)
  from assms(1) have "wired (xhr (conn w)) = [] \<or> wired (xhr (conn w)) = wired_by_open"
    by (simp add: lifecycle_inv_def)
  then show ?thesis using Signal
    by (auto simp: dispatch_unwired dispatch_wired handler_eq sends_def simp del: handler.simps)
next
  case RunTimer
  then show ?thesis
    by (cases "timers (rt w)") (simp_all add: run_timer_eq sends_def)
qed (simp_all add: sends_def)

lemma sends_run:
  "lifecycle_inv w \<Longrightarrow> state (conn w) \<noteq> INIT \<Longrightarrow> sends (run as w) = sends w"
proof (induction as arbitrary: w)
  case Nil
  show ?case by (simp add: run_Nil)
next
  case (Cons a as)
  have "state (conn (step a w)) \<noteq> INIT"
    using forward_step [of w a] Cons.prems(2) by (cases "state (conn w)") auto
  then have "sends (run as (step a w)) = sends (step a w)"
    using Cons.prems(1) by (intro Cons.IH inv_step)
  then show ?case
    using Cons.prems by (simp add: run_Cons sends_step)
qed

lemma segment_step:
  assumes "lifecycle_inv w" and "a \<noteq> RunTimer"
  shows "\<exists>seg. trace (rt (step a w)) = trace (rt w) @ seg \<and> deferred_order seg"
proof (cases a)
  case (CallOpen hs)
  show ?thesis
  proof (cases "state (conn w) = INIT")
    case True
    then show ?thesis using CallOpen segment_open [of w hs] by simp
  next
    case False
    then show ?thesis using CallOpen by (simp add: open_not_INIT)
  qed
next
  case CallClose
  then show ?thesis
    by (cases "state (conn w)") (simp_all add: close_eq)
next
  case (Signal s)
  from assms(1) have "wired (xhr (conn w)) = [] \<or> wired (xhr (conn w)) = wired_by_open"
    by (simp add: lifecycle_inv_def)
  then show ?thesis using Signal
    by (auto simp: dispatch_unwired dispatch_wired handler_eq simp del: handler.simps)
next
  case RunTimer
  then show ?thesis using assms(2) by simp
qed simp_all



subsection \<open>The constructor\<close>

text \<open>
  The loop over the listeners fails exactly on an entry that is not well shaped, and
  never with a \<open>TypeError\<close>; what the constructor returns satisfies the invariant.
\<close>

lemma add_listeners_fields:
  "add_listeners xs c = Inr c' \<Longrightarrow>
     state c' = state c \<and> opened c' = opened c \<and> closed c' = closed c \<and> url c' = url c"
  by (induction xs arbitrary: c) (auto simp: addListener_def split: if_splits)

lemma throw_Error_cases: "throw_Error e v = e \<or> throw_Error e v = TypeError"
  by (cases v) simp_all

lemma throw_Error_not_InvalidHeaders:
  "e \<noteq> InvalidHeaders \<Longrightarrow> throw_Error e v \<noteq> InvalidHeaders"
  by (cases v) simp_all

lemma add_listeners_error:
  "add_listeners xs c = Inl e \<Longrightarrow>
     e = InvalidListenerObject \<or> e = UnknownEventType \<or> e = InvalidCallback \<or> e = TypeError"
proof (induction xs arbitrary: c)
  case Nil
  then show ?case by simp
next
  case (Cons l ls)
  show ?case
    using Cons.prems Cons.IH
      throw_Error_cases [of UnknownEventType "get_prop l ''type''"]
      throw_Error_cases [of InvalidCallback "get_prop l ''type''"]
    by (auto split: if_splits)
qed

lemma add_listeners_Inl_iff:
  "(\<exists>e. add_listeners xs c = Inl e) \<longleftrightarrow> \<not> list_all well_shaped_listener xs"
proof (induction xs arbitrary: c)
  case Nil
  show ?case by simp
next
  case (Cons l ls)
  show ?case
    using Cons.IH by (cases l) auto
qed

lemma construct_throws_only_TypeError:
  "construct ca m b hh t ti op rr = (r', Inl e) \<Longrightarrow> e = TypeError"
  by (auto simp: construct_def Let_def split: if_splits prod.splits sum.splits
        dest: open_throws_pair)

lemma construct_trace:
  "take (Suc (length (trace r))) (trace (fst (construct ca m b h t ti op r))) = trace r @ [NewXHR]"
proof (cases "truthy op")
  case True
  let ?w = "\<lparr>conn = \<lparr>url = url ca, state = state ca, opened = opened ca, closed = closed ca,
                  listeners = listeners ca, request_method = m, body = b, headers = h,
                  responseType = t, timeout = ti, xhr = new_XMLHttpRequest\<rparr>,
             rt = r\<lparr>trace := trace r @ [NewXHR]\<rparr>\<rparr>"
  have "\<exists>seg. trace (rt (fst (open JUndefined ?w))) = trace (rt ?w) @ seg"
  proof (cases "state (conn ?w) = INIT")
    case i: True
    from segment_open [OF i, of JUndefined] show ?thesis by blast
  next
    case False
    then show ?thesis by (simp add: open_not_INIT)
  qed
  then obtain seg where "trace (rt (fst (open JUndefined ?w))) = trace r @ NewXHR # seg"
    by auto
  moreover have "fst (construct ca m b h t ti op r) = rt (fst (open JUndefined ?w))"
    using True by (simp add: construct_def Let_def split: prod.splits sum.splits)
  ultimately show ?thesis by simp
next
  case False
  then show ?thesis by (simp add: construct_def Let_def)
qed

lemma construct_inv:
  assumes "construct ca m b h t ti op r0 = (r, Inr c)"
      and "state ca = INIT" and "opened ca = None" and "closed ca = None"
      and "timers r0 = []" and "trace r0 = []"
  shows "lifecycle_inv \<lparr>conn = c, rt = r\<rparr>"
proof -
  let ?this = "\<lparr>url = url ca, state = state ca, opened = opened ca, closed = closed ca,
                  listeners = listeners ca, request_method = m, body = b, headers = h,
                  responseType = t, timeout = ti, xhr = new_XMLHttpRequest\<rparr>"
  let ?w0 = "\<lparr>conn = ?this, rt = r0\<lparr>trace := trace r0 @ [NewXHR]\<rparr>\<rparr>"
  have i0: "lifecycle_inv ?w0"
    using assms(2-6) by (simp add: lifecycle_inv_def new_XMLHttpRequest_def)
  show ?thesis
  proof (cases "truthy op")
    case True
    with assms(1) have "\<lparr>conn = c, rt = r\<rparr> = fst (open JUndefined ?w0)"
      by (auto simp: construct_def Let_def split: prod.splits sum.splits)
    then show ?thesis using inv_open [OF i0, of JUndefined] by simp
  next
    case False
    with assms(1) have "\<lparr>conn = c, rt = r\<rparr> = ?w0"
      by (auto simp: construct_def Let_def)
    then show ?thesis using i0 by simp
  qed
qed

lemma construct_null_headers:
  assumes "construct ca m b JNull t ti op r = (r', Inr c)" and "state ca = INIT"
  shows "\<not> truthy op \<and> headers c = JNull \<and> state c = INIT"
proof (cases "truthy op")
  case True
  have "snd (construct ca m b JNull t ti op r) = Inl TypeError"
    using True assms(2)
    by (simp add: construct_def Let_def open_throws_base split: prod.splits sum.splits)
  with assms(1) show ?thesis by simp
next
  case False
  with assms show ?thesis by (auto simp: construct_def Let_def)
qed

lemma XHRConnection_Inr:
  assumes "XHRConnection u opts r0 = (r, Inr c)"
  shows "\<exists>ca m b h t ti op. construct ca m b h t ti op r0 = (r, Inr c)
           \<and> state ca = INIT \<and> opened ca = None \<and> closed ca = None"
  using assms
  apply (auto simp: XHRConnection_def Let_def AbstractConnection_def
        split: if_splits jsval.splits sum.splits dest!: add_listeners_fields)
  by blast

lemma constructed_inv:
  assumes "XHRConnection u opts (fresh t) = (rt w0, Inr (conn w0))"
  shows "lifecycle_inv w0"
proof -
  from XHRConnection_Inr [OF assms] obtain ca m b h t' ti op
    where "construct ca m b h t' ti op (fresh t) = (rt w0, Inr (conn w0))"
      and "state ca = INIT" "opened ca = None" "closed ca = None"
    by blast
  then have "lifecycle_inv \<lparr>conn = conn w0, rt = rt w0\<rparr>"
    by (rule construct_inv) (simp_all add: fresh_def)
  moreover have "\<lparr>conn = conn w0, rt = rt w0\<rparr> = w0"
    by (cases w0) simp
  ultimately show ?thesis by simp
qed

lemma reachable_inv:
  assumes "XHRConnection u opts (fresh t) = (rt w0, Inr (conn w0))"
  shows "lifecycle_inv (run as w0)"
  by (rule inv_run) (rule constructed_inv [OF assms])

lemma XHRConnection_null_headers:
  assumes "get_prop opts ''headers'' = JNull"
  shows "snd (XHRConnection u opts r) \<noteq> Inl InvalidHeaders"
    and "XHRConnection u opts r = (r', Inr c) \<Longrightarrow> headers c = JNull \<and> state c = INIT"
proof -
  have o: "dflt (JObj []) opts = opts"
    using assms by (cases opts) (simp_all add: dflt_def)
  have h: "dflt d (get_prop opts ''headers'') = JNull" for d
    using assms by (simp add: dflt_def)
  have e: "snd (construct ca m b hh t ti op rr) = Inl InvalidHeaders \<Longrightarrow> False"
    for ca m b hh t ti op rr
    using construct_throws_only_TypeError [of ca m b hh t ti op rr _ InvalidHeaders]
    by (cases "construct ca m b hh t ti op rr") auto
  show "snd (XHRConnection u opts r) \<noteq> Inl InvalidHeaders"
    using e
    by (auto simp: XHRConnection_def Let_def o h throw_Error_not_InvalidHeaders
          split: if_splits jsval.splits sum.splits dest: add_listeners_error)
  show "headers c = JNull \<and> state c = INIT" if "XHRConnection u opts r = (r', Inr c)"
    using that
    by (auto simp: XHRConnection_def Let_def o h AbstractConnection_def
          split: if_splits jsval.splits sum.splits
          dest!: add_listeners_fields construct_null_headers)
qed

text \<open>
  For options other than \<open>null\<close>: when one of the constructor's checks fails, it
  throws and has touched nothing; when all checks pass, creating the transport handle is
  the first thing it does to the outside, and the only error it can still throw is the
  \<open>TypeError\<close> of \<open>open\<close>. The check of the headers is the one the source
  makes, on \<open>typeof\<close>.
\<close>

lemma constructor_checks:
  assumes "opts \<noteq> JNull"
  shows "\<not> checks_pass opts \<Longrightarrow>
           fst (XHRConnection u opts r) = r \<and> (\<exists>e. snd (XHRConnection u opts r) = Inl e)"
    and "checks_pass opts \<Longrightarrow>
           take (Suc (length (trace r))) (trace (fst (XHRConnection u opts r))) = trace r @ [NewXHR]"
    and "checks_pass opts \<Longrightarrow> snd (XHRConnection u opts r) = Inl e \<Longrightarrow> e = TypeError"
proof -
  have o: "dflt (JObj []) opts \<noteq> JNull"
    using assms by (simp add: dflt_def)
  have ok: "\<exists>ca m b h t ti op. XHRConnection u opts r = construct ca m b h t ti op r"
    if "checks_pass opts"
  proof -
    from that obtain xs where xs: "option_or opts ''listeners'' (JArr []) = JArr xs"
      and all: "list_all well_shaped_listener xs"
      by (auto simp: checks_pass_def split: jsval.splits)
    from all add_listeners_Inl_iff [of xs "AbstractConnection u"]
    obtain ca where "add_listeners xs (AbstractConnection u) = Inr ca"
      by (cases "add_listeners xs (AbstractConnection u)") auto
    then have "XHRConnection u opts r =
              construct ca (option_or opts ''method'' (JStr ''GET''))
                (option_or opts ''body'' JNull)
                (option_or opts ''headers'' (JObj [(''Accept'', JStr ''application/json'')]))
                (option_or opts ''responseType'' (JStr ''json''))
                (option_or opts ''timeout'' (JNum (NInt 0)))
                (get_prop (dflt (JObj []) opts) ''open'') r"
      using that xs o
      by (auto simp: XHRConnection_def Let_def checks_pass_def option_or_def)
    then show ?thesis by blast
  qed
  show "fst (XHRConnection u opts r) = r \<and> (\<exists>e. snd (XHRConnection u opts r) = Inl e)"
    if "\<not> checks_pass opts"
  proof (cases "option_or opts ''listeners'' (JArr [])")
    case (JArr xs)
    show ?thesis
    proof (cases "list_all well_shaped_listener xs")
      case True
      then show ?thesis
        using that JArr o
        by (auto simp: XHRConnection_def Let_def checks_pass_def option_or_def)
    next
      case False
      with add_listeners_Inl_iff [of xs "AbstractConnection u"]
      obtain e where e: "add_listeners xs (AbstractConnection u) = Inl e" by blast
      then show ?thesis
        using JArr o
        by (auto simp: XHRConnection_def Let_def option_or_def)
    qed
  qed (use that o in \<open>auto simp: XHRConnection_def Let_def checks_pass_def option_or_def\<close>)
  show "take (Suc (length (trace r))) (trace (fst (XHRConnection u opts r))) = trace r @ [NewXHR]"
    if "checks_pass opts"
    using ok [OF that] construct_trace by auto
  show "e = TypeError" if "checks_pass opts" and e: "snd (XHRConnection u opts r) = Inl e"
  proof -
    from ok [OF that(1)] obtain ca m b h t ti op
      where c: "XHRConnection u opts r = construct ca m b h t ti op r" by blast
    with e have "construct ca m b h t ti op r = (fst (construct ca m b h t ti op r), Inl e)"
      by (simp add: prod_eq_iff)
    from construct_throws_only_TypeError [OF this] show ?thesis .
  qed
qed

subsection \<open>The timestamps\<close>


















subsection \<open>The sample inputs\<close>

lemma default_constructed:
  "XHRConnection (JStr ''/api'') JUndefined (fresh 7) =
     (rt default_world, Inr (conn default_world))"
  by (simp add: XHRConnection_def construct_def dflt_def ALLOWED_METHODS_def
        ALLOWED_RESPONSE_TYPES_def AbstractConnection_def default_connection_def fresh_def
        default_world_def)

lemma default_init: "state (conn default_world) = INIT"
  by (simp add: default_world_def default_connection_def)



lemma default_entries:
  "Object_entries (headers (conn default_world)) = Some [(''Accept'', JStr ''application/json'')]"
  by (simp add: default_world_def default_connection_def)


lemma default_opened:
  "state (conn (run [CallOpen JUndefined, Status 200] default_world)) = OPEN"
  by (simp add: run_Cons run_Nil open_INIT_fields default_world_def default_connection_def)

lemma default_open: "state (conn (run [CallOpen JUndefined] default_world)) = OPEN"
  by (simp add: run_Cons run_Nil open_INIT_fields default_init)

lemma default_closed: "state (conn (run [CallClose] default_world)) = CLOSED"
  by (simp add: run_Cons run_Nil close_eq default_world_def default_connection_def)

lemma default_open_timers: "timers (rt (run [CallOpen JUndefined] default_world)) = [Ev_OPEN]"
  by (simp add: run_Cons run_Nil open_INIT_fields default_init) (simp add: default_world_def)





lemma null_headers_constructed:
  "XHRConnection (JStr ''/api'') (JObj [(''headers'', JNull)]) (fresh 7) =
     (rt null_headers_world, Inr (conn null_headers_world))"
  by (simp add: XHRConnection_def construct_def dflt_def ALLOWED_METHODS_def
        ALLOWED_RESPONSE_TYPES_def AbstractConnection_def default_connection_def fresh_def
        null_headers_world_def)

lemma null_headers_init: "state (conn null_headers_world) = INIT"
  by (simp add: null_headers_world_def default_connection_def)

lemma null_headers_entries: "Object_entries (headers (conn null_headers_world)) = None"
  by (simp add: null_headers_world_def default_connection_def)

section \<open>The properties\<close>

text \<open>
  C1. While the connection is OPEN, the listeners that \<open>open\<close> has registered react to
  a transport signal as follows. A progress signal sets one timer for a DATA event and
  changes nothing else. A load signal with a status below 400 sets the state to CLOSED,
  stamps \<open>closed\<close> with the current time and sets one timer for a COMPLETE event; with a
  status of 400 or more the timer is for an ERROR event. An abort signal does the same
  with an ABORT event, an error signal and a timeout signal with an ERROR event. Nothing
  is emitted inside the listener, and when the pending timers have run, exactly that one
  event has been emitted in addition. The listeners have no throwing path: a signal
  yields a world, never an error. Here \<open>w\<close> is any world reached from a freshly
  constructed connection by calls, signals, timers and clock ticks.
\<close>

theorem open_wires_reactions:
  assumes "XHRConnection u opts (fresh t) = (rt w0, Inr (conn w0))"
      and "w = run as w0"
      and "state (conn w) = OPEN"
  shows "wired (xhr (conn w)) = wired_by_open
       \<and> dispatchEvent s w = reaction s w
       \<and> emitted (dispatchEvent s w) = emitted w
       \<and> emitted (drain (dispatchEvent s w)) =
           emitted (drain w) @ [reaction_kind s (status (conn w))]"
proof -
  have "lifecycle_inv w"
    unfolding assms(2) by (rule reachable_inv [OF assms(1)])
  with assms(3) have wd: "wired (xhr (conn w)) = wired_by_open"
    by (simp add: lifecycle_inv_def)
  then have d: "dispatchEvent s w = reaction s w"
    by (simp add: dispatch_wired reaction_handler)
  show ?thesis
    by (simp add: wd d drain_emitted emitted_reaction timers_reaction)
qed

theorem open_wires_reactions_witness:
  "state (conn (run [CallOpen JUndefined, Status 200] default_world)) = OPEN
   \<and> dispatchEvent SigLoad (run [CallOpen JUndefined, Status 200] default_world) =
       reaction SigLoad (run [CallOpen JUndefined, Status 200] default_world)
   \<and> reaction_kind SigLoad
         (status (conn (run [CallOpen JUndefined, Status 200] default_world))) = Ev_COMPLETE"
  using open_wires_reactions [OF default_constructed refl default_opened, of SigLoad]
    default_opened
  by (simp add: run_Cons run_Nil status_def)

text \<open>
  C2. Whatever the caller, the transport, the timers and the clock do, one after the other,
  the state of a connection only moves along INIT, then OPEN, then CLOSED, or from INIT to
  CLOSED at once: each single step moves it forward or leaves it, so does every
  continuation of a run, and a connection that is CLOSED stays CLOSED. This holds from
  every world, so in particular from every connection a valid configuration constructs.
\<close>

theorem state_only_forward:
  "forward (state (conn w)) (state (conn (step a w)))
   \<and> forward (state (conn (run as w))) (state (conn (run (as @ bs) w)))
   \<and> (state (conn w) = CLOSED \<longrightarrow> state (conn (run as w)) = CLOSED)"
proof -
  have "forward (state (conn w)) (state (conn (run as w)))"
    by (rule forward_run)
  then have "state (conn w) = CLOSED \<longrightarrow> state (conn (run as w)) = CLOSED"
    by auto
  then show ?thesis
    by (simp add: forward_step run_append forward_run)
qed

theorem state_only_forward_witness:
  "state (conn (run [CallClose] default_world)) = CLOSED
   \<and> state (conn (run [CallOpen JUndefined, Signal SigLoad] (run [CallClose] default_world)))
       = CLOSED"
  using state_only_forward [of "run [CallClose] default_world" CallClose
          "[CallOpen JUndefined, Signal SigLoad]" "[]"] default_closed
  by simp

text \<open>
  C3, at the input where the code departs from it: the options \<open>{headers: null}\<close>.
  The value \<open>null\<close> is not an object, yet construction returns a connection whose
  headers are \<open>null\<close>. The check of a listener, a few lines below in the same
  constructor, does reject \<open>null\<close>. With the check of the headers
  read as the source's test of \<open>typeof\<close>, \<open>constructor_checks\<close> gives the
  rest of C3: the constructor throws before it has touched anything exactly when a check
  fails, and it creates the transport handle only after all checks have passed.
\<close>

theorem null_headers_not_rejected:
  "XHRConnection (JStr ''/api'') (JObj [(''headers'', JNull)]) (fresh 7) =
     (rt null_headers_world, Inr (conn null_headers_world))
   \<and> headers (conn null_headers_world) = JNull
   \<and> snd (XHRConnection (JStr ''/api'') (JObj [(''listeners'', JArr [JNull])]) (fresh 7)) =
       Inl InvalidListenerObject"
  by (simp add: null_headers_constructed)
     (simp add: XHRConnection_def dflt_def ALLOWED_METHODS_def ALLOWED_RESPONSE_TYPES_def
        null_headers_world_def default_connection_def)

theorem null_headers_not_rejected_witness:
  "js_typeof JNull = ''object''
   \<and> snd (XHRConnection (JStr ''/api'') (JObj [(''headers'', JNull)]) (fresh 7)) =
       Inr (conn null_headers_world)"
  using null_headers_not_rejected by simp

text \<open>
  C4. What \<open>close\<close> does depends on the state. In state INIT it sets the state
  to CLOSED, stamps \<open>closed\<close> with the current time and sets one timer for an ABORT
  event, which is the one event emitted once the timers have run; the transport never
  sends, whatever happens afterwards. In state OPEN it calls \<open>abort\<close> on the
  transport handle and changes nothing else: state, timestamps and timers are as before.
  In state CLOSED it changes nothing at all.
\<close>

theorem close_by_state:
  assumes "XHRConnection u opts (fresh t) = (rt w0, Inr (conn w0))"
      and "w = run bs w0"
  shows "(state (conn w) = INIT \<longrightarrow>
            close w =
              \<lparr>conn = (conn w)\<lparr>state := CLOSED, closed := Some (clock (rt w))\<rparr>,
               rt = (rt w)\<lparr>timers := timers (rt w) @ [Ev_ABORT],
                            trace := trace (rt w) @
                              [SetState CLOSED, SetClosed (clock (rt w)), SetTimeout Ev_ABORT]\<rparr>\<rparr>
            \<and> emitted (drain (close w)) = emitted (drain w) @ [Ev_ABORT]
            \<and> sends (run as (close w)) = [])
       \<and> (state (conn w) = OPEN \<longrightarrow>
            close w = \<lparr>conn = conn w, rt = (rt w)\<lparr>trace := trace (rt w) @ [XhrAbort]\<rparr>\<rparr>)
       \<and> (state (conn w) = CLOSED \<longrightarrow> close w = w)"
proof -
  have inv: "lifecycle_inv w"
    unfolding assms(2) by (rule reachable_inv [OF assms(1)])
  have a: "close w =
              \<lparr>conn = (conn w)\<lparr>state := CLOSED, closed := Some (clock (rt w))\<rparr>,
               rt = (rt w)\<lparr>timers := timers (rt w) @ [Ev_ABORT],
                            trace := trace (rt w) @
                              [SetState CLOSED, SetClosed (clock (rt w)), SetTimeout Ev_ABORT]\<rparr>\<rparr>"
    if "state (conn w) = INIT"
    by (rule world.equality) (simp_all add: close_eq that)
  have b: "emitted (drain (close w)) = emitted (drain w) @ [Ev_ABORT]"
    if i: "state (conn w) = INIT"
  proof -
    have "emitted (close w) = emitted w"
      by (simp add: emitted_def close_eq i)
    then show ?thesis
      by (simp add: drain_emitted close_eq i)
  qed
  have c: "sends (run as (close w)) = []" if i: "state (conn w) = INIT"
  proof -
    have "lifecycle_inv (close w)" by (rule inv_close [OF inv])
    moreover have "state (conn (close w)) \<noteq> INIT" by (simp add: close_eq i)
    ultimately have "sends (run as (close w)) = sends (close w)" by (rule sends_run)
    also have "\<dots> = []"
      using inv i by (simp add: sends_def close_eq lifecycle_inv_def)
    finally show ?thesis .
  qed
  have d: "close w = \<lparr>conn = conn w, rt = (rt w)\<lparr>trace := trace (rt w) @ [XhrAbort]\<rparr>\<rparr>"
    if "state (conn w) = OPEN"
    by (rule world.equality) (simp_all add: close_eq that)
  show ?thesis
    using a b c d by (simp add: close_eq)
qed

theorem close_by_state_witness:
  "state (conn default_world) = INIT
   \<and> state (conn (close default_world)) = CLOSED
   \<and> closed (conn (close default_world)) = Some 7
   \<and> timers (rt (close default_world)) = [Ev_ABORT]
   \<and> sends (run [CallOpen JUndefined, RunTimer] (close default_world)) = []
   \<and> state (conn (run [CallOpen JUndefined] default_world)) = OPEN
   \<and> close (run [CallOpen JUndefined] default_world) =
       \<lparr>conn = conn (run [CallOpen JUndefined] default_world),
        rt = (rt (run [CallOpen JUndefined] default_world))
               \<lparr>trace := trace (rt (run [CallOpen JUndefined] default_world)) @ [XhrAbort]\<rparr>\<rparr>
   \<and> state (conn (run [CallClose] default_world)) = CLOSED
   \<and> close (run [CallClose] default_world) = run [CallClose] default_world"
proof -
  have a: "close default_world =
             \<lparr>conn = (conn default_world)\<lparr>state := CLOSED, closed := Some (clock (rt default_world))\<rparr>,
              rt = (rt default_world)\<lparr>timers := timers (rt default_world) @ [Ev_ABORT],
                     trace := trace (rt default_world) @
                       [SetState CLOSED, SetClosed (clock (rt default_world)), SetTimeout Ev_ABORT]\<rparr>\<rparr>"
    and b: "sends (run [CallOpen JUndefined, RunTimer] (close default_world)) = []"
    using close_by_state [OF default_constructed, of default_world "[]"
            "[CallOpen JUndefined, RunTimer]"] default_init
    by (auto simp: run_Nil)
  have c: "close (run [CallOpen JUndefined] default_world) =
       \<lparr>conn = conn (run [CallOpen JUndefined] default_world),
        rt = (rt (run [CallOpen JUndefined] default_world))
               \<lparr>trace := trace (rt (run [CallOpen JUndefined] default_world)) @ [XhrAbort]\<rparr>\<rparr>"
    using close_by_state [OF default_constructed refl, of "[CallOpen JUndefined]"] default_open
    by simp
  have d: "close (run [CallClose] default_world) = run [CallClose] default_world"
    using close_by_state [OF default_constructed refl, of "[CallClose]"] default_closed
    by simp
  have e: "state (conn (close default_world)) = CLOSED"
    "closed (conn (close default_world)) = Some 7"
    "timers (rt (close default_world)) = [Ev_ABORT]"
    by (simp_all add: a) (simp_all add: default_world_def)
  show ?thesis
    using b c d e default_init default_open default_closed by simp
qed

text \<open>
  C5, at the input where the code departs from it: the connection constructed from the
  options \<open>{headers: null}\<close>. The first call of \<open>open\<close> throws a
  \<open>TypeError\<close> after it has set the timer of the OPEN event and before it sends;
  the second call does nothing. Two calls give one OPEN event and no send. Whenever the
  first call returns, any number of calls give one OPEN event and one send
  (\<open>open_idempotent\<close>, \<open>open_repeated_once\<close>).
\<close>

theorem open_twice_null_headers:
  "state (conn null_headers_world) = INIT
   \<and> snd (open JUndefined null_headers_world) = Inl TypeError
   \<and> sends (run [CallOpen JUndefined, CallOpen JUndefined] null_headers_world) = []
   \<and> timers (rt (run [CallOpen JUndefined, CallOpen JUndefined] null_headers_world)) = [Ev_OPEN]"
proof -
  have o: "open JUndefined null_headers_world = (after_opening null_headers_world, Inl TypeError)"
    by (rule open_throws_base [OF null_headers_init null_headers_entries])
  have s: "state (conn (after_opening null_headers_world)) = OPEN"
    by (simp add: after_opening_def)
  have r: "run [CallOpen JUndefined, CallOpen JUndefined] null_headers_world =
             after_opening null_headers_world"
    by (simp add: run_Cons run_Nil o open_not_INIT s)
  show ?thesis
    by (simp add: r o null_headers_init sends_after_opening)
       (simp add: after_opening_def sends_def null_headers_world_def)
qed

text \<open>
  C6. In every world reached from a freshly constructed connection: a call of
  \<open>open\<close> or \<open>close\<close> and a transport signal only add effects to the
  trace, among them no emission, and once such a call or listener has set a zero-delay
  timer it assigns neither \<open>state\<close> nor \<open>opened\<close> nor \<open>closed\<close> any
  more: the assignments come first, the timer after them. An event is emitted only when
  a timer runs, and the \<open>state\<close>, \<open>opened\<close> and \<open>closed\<close> its
  listeners read are settled for its kind: for OPEN the state has left INIT and
  \<open>opened\<close> is set, for COMPLETE, ERROR and ABORT the state is CLOSED and
  \<open>closed\<close> is set. The same holds of every emission made so far.
\<close>

theorem emissions_deferred:
  assumes "XHRConnection u opts (fresh t) = (rt w0, Inr (conn w0))"
      and "w = run as w0"
  shows "(a \<noteq> RunTimer \<longrightarrow>
            take (length (trace (rt w))) (trace (rt (step a w))) = trace (rt w)
            \<and> deferred_order (drop (length (trace (rt w))) (trace (rt (step a w)))))
       \<and> (case timers (rt w) of
             [] \<Rightarrow> step RunTimer w = w
           | k # ks \<Rightarrow>
               settled k (state (conn w)) (opened (conn w)) (closed (conn w))
               \<and> trace (rt (step RunTimer w)) = trace (rt w) @
                   [Emit k (map snd (filter (\<lambda>l. fst l = ConnectionEvent_kind k) (listeners (conn w))))
                      (state (conn w)) (opened (conn w)) (closed (conn w))])
       \<and> list_all settled_effect (trace (rt w))"
proof -
  have inv: "lifecycle_inv w"
    unfolding assms(2) by (rule reachable_inv [OF assms(1)])
  have 1: "take (length (trace (rt w))) (trace (rt (step a w))) = trace (rt w)
            \<and> deferred_order (drop (length (trace (rt w))) (trace (rt (step a w))))"
    if "a \<noteq> RunTimer"
    using segment_step [OF inv that] by auto
  have 2: "case timers (rt w) of
             [] \<Rightarrow> step RunTimer w = w
           | k # ks \<Rightarrow>
               settled k (state (conn w)) (opened (conn w)) (closed (conn w))
               \<and> trace (rt (step RunTimer w)) = trace (rt w) @
                   [Emit k (map snd (filter (\<lambda>l. fst l = ConnectionEvent_kind k) (listeners (conn w))))
                      (state (conn w)) (opened (conn w)) (closed (conn w))]"
  proof (cases "timers (rt w)")
    case Nil
    then show ?thesis by (simp add: run_timer_eq)
  next
    case (Cons k ks)
    with inv have "settled k (state (conn w)) (opened (conn w)) (closed (conn w))"
      by (simp add: lifecycle_inv_def)
    with Cons show ?thesis by (simp add: run_timer_eq)
  qed
  have 3: "list_all settled_effect (trace (rt w))"
    using inv by (simp add: lifecycle_inv_def)
  show ?thesis using 1 2 3 by blast
qed

theorem emissions_deferred_witness:
  "Signal SigLoad \<noteq> RunTimer
   \<and> deferred_order
        (drop (length (trace (rt (run [CallOpen JUndefined] default_world))))
           (trace (rt (step (Signal SigLoad) (run [CallOpen JUndefined] default_world)))))
   \<and> timers (rt (run [CallOpen JUndefined] default_world)) = [Ev_OPEN]
   \<and> settled Ev_OPEN (state (conn (run [CallOpen JUndefined] default_world)))
         (opened (conn (run [CallOpen JUndefined] default_world)))
         (closed (conn (run [CallOpen JUndefined] default_world)))
   \<and> list_all settled_effect (trace (rt (run [CallOpen JUndefined] default_world)))"
  using emissions_deferred [OF default_constructed refl, of "Signal SigLoad" "[CallOpen JUndefined]"]
    default_open_timers
  by simp

text \<open>
  C7, at the inputs where the code departs from it: \<open>open(null)\<close> on a connection
  with the default options, and \<open>open()\<close> on the connection constructed from the
  options \<open>{headers: null}\<close>, both in state INIT. The call moves the state to OPEN
  and, in the first case, applies the configured headers; then it throws a
  \<open>TypeError\<close> when it enumerates \<open>null\<close>: it sets no response type on the
  transport, sends nothing and returns nothing. Whenever the configured headers and the headers passed can be enumerated,
  \<open>open\<close> does all that C7 states (\<open>open_returns\<close>).
\<close>

theorem open_null_argument_throws:
  "state (conn default_world) = INIT
   \<and> snd (open JNull default_world) = Inl TypeError
   \<and> state (conn (fst (open JNull default_world))) = OPEN
   \<and> sends (fst (open JNull default_world)) = []
   \<and> x_responseType (xhr (conn (fst (open JNull default_world)))) = JStr ''''
   \<and> state (conn null_headers_world) = INIT
   \<and> snd (open JUndefined null_headers_world) = Inl TypeError
   \<and> sends (fst (open JUndefined null_headers_world)) = []"
proof -
  have n: "open JUndefined null_headers_world = (after_opening null_headers_world, Inl TypeError)"
    by (rule open_throws_base [OF null_headers_init null_headers_entries])
  have m: "sends null_headers_world = []"
    by (simp add: sends_def null_headers_world_def)
  have e: "extra_entries JNull = None"
    by (simp add: extra_entries_def)
  have o: "open JNull default_world =
             (apply_headers [(''Accept'', JStr ''application/json'')] (after_opening default_world),
              Inl TypeError)"
    by (rule open_throws_extra [OF default_init default_entries e])
  have d: "state (conn (fst (open JNull default_world))) = OPEN
      \<and> sends (fst (open JNull default_world)) = []
      \<and> x_responseType (xhr (conn (fst (open JNull default_world)))) = JStr ''''"
    by (simp add: o conn_apply_headers rt_apply_headers sends_def
          after_opening_def opening_effects_def header_calls_def)
       (simp add: default_world_def default_connection_def new_XMLHttpRequest_def)
  have s: "sends (fst (open JUndefined null_headers_world)) = []"
    by (simp add: n sends_after_opening m)
  show ?thesis
    using d s by (simp add: o n default_init null_headers_init)
qed

text \<open>
  C8, as stated, at a concrete input: a connection configured with the response type
  json whose transport reports the empty negotiated response type and the empty text as
  response (a freshly constructed connection, or an empty body under the fallback). The
  accessor returns the empty text as it is; it does not parse it.
\<close>

theorem response_empty_text_counterexample:
  "responseType default_connection = JStr ''json''
   \<and> x_responseType (xhr default_connection) = JStr ''''
   \<and> response default_connection = As_is (JStr '''')
   \<and> response default_connection \<noteq> JSON_parse (x_response (xhr default_connection))"
  by (simp add: response_def default_connection_def new_XMLHttpRequest_def)

text \<open>
  C8, amended. For a connection configured with the response type json, the accessor
  returns \<open>JSON.parse\<close> of the transport's response exactly when the transport's
  negotiated response type is the empty string and the transport's response is truthy;
  in every other case, an empty or absent response under the fallback included, it
  returns the transport's response as it is.
\<close>

theorem response_json:
  assumes "responseType c = JStr ''json''"
  shows "response c =
           (if x_responseType (xhr c) = JStr '''' \<and> truthy (x_response (xhr c))
            then JSON_parse (x_response (xhr c))
            else As_is (x_response (xhr c)))"
  using assms by (auto simp: response_def)

theorem response_json_witness:
  "responseType (default_connection\<lparr>xhr := new_XMLHttpRequest\<lparr>x_response := JStr ''[1]''\<rparr>\<rparr>)
     = JStr ''json''
   \<and> response (default_connection\<lparr>xhr := new_XMLHttpRequest\<lparr>x_response := JStr ''[1]''\<rparr>\<rparr>)
     = JSON_parse (JStr ''[1]'')"
  using response_json [of "default_connection\<lparr>xhr := new_XMLHttpRequest\<lparr>x_response := JStr ''[1]''\<rparr>\<rparr>"]
  by (simp add: default_connection_def new_XMLHttpRequest_def)




text \<open>
  C10. When the \<open>headers\<close> option is \<open>null\<close>, the constructor does not throw
  its invalid-headers error, whatever the other options are: \<open>typeof null\<close> is
  \<open>"object"\<close>. A connection it then returns has \<open>null\<close> as headers and is in
  state INIT, and every call of \<open>open\<close> on it throws a \<open>TypeError\<close> when it
  enumerates the headers, before anything is sent.
\<close>

theorem null_headers_pass_construction:
  assumes "get_prop opts ''headers'' = JNull"
  shows "snd (XHRConnection u opts r) \<noteq> Inl InvalidHeaders
       \<and> (XHRConnection u opts r = (rt w, Inr (conn w)) \<longrightarrow>
            headers (conn w) = JNull \<and> state (conn w) = INIT
            \<and> snd (open hs w) = Inl TypeError
            \<and> sends (fst (open hs w)) = sends w)"
proof -
  have "headers (conn w) = JNull \<and> state (conn w) = INIT
            \<and> snd (open hs w) = Inl TypeError
            \<and> sends (fst (open hs w)) = sends w"
    if "XHRConnection u opts r = (rt w, Inr (conn w))"
  proof -
    from XHRConnection_null_headers(2) [OF assms that]
    have h: "headers (conn w) = JNull" and i: "state (conn w) = INIT" by simp_all
    from h have "Object_entries (headers (conn w)) = None" by simp
    from open_throws_base [OF i this, of hs] show ?thesis
      using h i by (simp add: sends_after_opening)
  qed
  then show ?thesis
    using XHRConnection_null_headers(1) [OF assms, of u r] by blast
qed

theorem null_headers_pass_construction_witness:
  "get_prop (JObj [(''headers'', JNull)]) ''headers'' = JNull
   \<and> XHRConnection (JStr ''/api'') (JObj [(''headers'', JNull)]) (fresh 7) =
       (rt null_headers_world, Inr (conn null_headers_world))
   \<and> snd (open JUndefined null_headers_world) = Inl TypeError
   \<and> sends (fst (open JUndefined null_headers_world)) = sends null_headers_world"
  using null_headers_pass_construction [of "JObj [(''headers'', JNull)]" "JStr ''/api''"
          "fresh 7" null_headers_world JUndefined] null_headers_constructed
  by simp

end
